theory Spec2Isabelle
  imports Main "HOL-Library.Char_ord" "HOL-Library.List_Lexorder" "HOL-Library.Multiset"
begin

section \<open>The Gemini file-search client (\<^verbatim>\<open>gemini_file_search.py\<close>)\<close>

text \<open>
  The class \<^verbatim>\<open>GeminiRAG\<close> is a sequencing wrapper around a remote service. The model
  keeps the object's fields in a record, threads it through every method, and logs each
  effect the code performs (remote calls, \<^verbatim>\<open>print\<close>, \<^verbatim>\<open>time.sleep\<close>) in a trace, in the
  order the code performs them. What the remote service and the local filesystem answer
  is not part of the program: it is a parameter of every method (the record \<open>env\<close>).

  The parameters \<^verbatim>\<open>metadata\<close> of \<^verbatim>\<open>upload_file\<close>, \<^verbatim>\<open>metadata_filter\<close> of \<^verbatim>\<open>query\<close> and
  \<^verbatim>\<open>store_name\<close> of \<^verbatim>\<open>delete_store\<close> are never read by the code and are left out.
  The function \<^verbatim>\<open>main\<close>, the interactive loop around these methods, is not modelled.

  A Python \<^verbatim>\<open>str\<close> is modelled as its UTF-8 bytes (\<open>string\<close>); the lexicographic order
  on the bytes is the order of the code points that \<^verbatim>\<open>sorted\<close> uses.
\<close>

subsection \<open>Data\<close>

text \<open>Remote handles: the code reads only their \<^verbatim>\<open>name\<close>, and \<^verbatim>\<open>done\<close> of an operation.\<close>

datatype store = Store (store_name: string)

datatype file_handle = File (file_name: string)

datatype operation = Operation (op_name: string) (is_done: bool)

text \<open>
  The response of \<^verbatim>\<open>generate_content\<close>, as far as \<^verbatim>\<open>query\<close> reads it. An optional
  attribute is an \<open>option\<close>: \<open>None\<close> for \<open>retrieved_context\<close> means that the chunk has no
  such attribute or that its value has no \<^verbatim>\<open>title\<close> (the two \<^verbatim>\<open>hasattr\<close> tests); the
  title itself is a \<^verbatim>\<open>str\<close> or Python's \<^verbatim>\<open>None\<close>.
\<close>

datatype retrieved = Retrieved (title: "string option")

datatype chunk = Chunk (retrieved_context: "retrieved option")

datatype grounding = Grounding (grounding_chunks: "chunk list option")

datatype candidate = Candidate (grounding_metadata: "grounding option")

datatype response = Response (response_text: "string option") (candidates: "candidate list option")

text \<open>
  Exceptions, all of them subclasses of \<^verbatim>\<open>Exception\<close>, each with the text that
  \<^verbatim>\<open>str(e)\<close> gives. \<open>OSError\<close> is what the operating system refuses (a file name
  that is too long), \<open>RemoteError\<close> is whatever the client library raises from a
  remote call. An interrupt of the process is outside the model.
\<close>

datatype exn =
    ValueError string
  | FileNotFoundError string
  | TypeError string
  | OSError string
  | RemoteError string

fun str_exn :: "exn \<Rightarrow> string" where
  "str_exn (ValueError m) = m"
| "str_exn (FileNotFoundError m) = m"
| "str_exn (TypeError m) = m"
| "str_exn (OSError m) = m"
| "str_exn (RemoteError m) = m"

text \<open>The effects, with the arguments the code passes.\<close>

datatype event =
    Print string
  | Sleep nat
  | ClientCreate string
  | StoresCreate string
  | FilesUpload string string
  | ImportFile string string
  | OperationsGet operation
  | GenerateContent string string "string list"
  | FilesList
  | FilesDelete string
  | StoresList
  | StoresDelete string

fun is_remote :: "event \<Rightarrow> bool" where
  "is_remote (Print _) = False"
| "is_remote (Sleep _) = False"
| "is_remote (ClientCreate _) = False"
| "is_remote _ = True"

text \<open>
  The surroundings of the program. Each remote endpoint answers from the effects
  performed so far and the arguments of the call, with a value or an exception.
  \<open>path_exists\<close>, \<open>path_str\<close> and \<open>path_name\<close> are \<^verbatim>\<open>Path(p).exists()\<close>,
  \<^verbatim>\<open>str(Path(p))\<close> and \<^verbatim>\<open>Path(p).name\<close> of \<^verbatim>\<open>pathlib\<close>. \<^verbatim>\<open>Path(p).exists()\<close> answers
  \<^verbatim>\<open>True\<close> or \<^verbatim>\<open>False\<close>, or raises what the operating system reports other than a
  missing file (for a name that is too long, say): such a path does not exist either.
  \<open>none_on_left\<close> is the one thing the program shows of the order in which Python
  iterates a set: whether \<^verbatim>\<open>sorted\<close>, on a set that holds \<^verbatim>\<open>None\<close> and strings, first
  compares \<^verbatim>\<open>None\<close> with a string as the left operand or as the right one.
\<close>

record env =
  path_exists :: "string \<Rightarrow> exn + bool"
  path_str :: "string \<Rightarrow> string"
  path_name :: "string \<Rightarrow> string"
  stores_create :: "event list \<Rightarrow> string \<Rightarrow> exn + store"
  stores_list :: "event list \<Rightarrow> exn + store list"
  stores_delete :: "event list \<Rightarrow> string \<Rightarrow> exn + unit"
  files_upload :: "event list \<Rightarrow> string \<Rightarrow> string \<Rightarrow> exn + file_handle"
  files_list :: "event list \<Rightarrow> exn + file_handle list"
  files_delete :: "event list \<Rightarrow> string \<Rightarrow> exn + unit"
  import_file :: "event list \<Rightarrow> string \<Rightarrow> string \<Rightarrow> exn + operation"
  operations_get :: "event list \<Rightarrow> operation \<Rightarrow> exn + operation"
  generate_content :: "event list \<Rightarrow> string \<Rightarrow> string \<Rightarrow> string list \<Rightarrow> exn + response"
  none_on_left :: "string option set \<Rightarrow> bool"

text \<open>The fields of a \<^verbatim>\<open>GeminiRAG\<close> object, \<^verbatim>\<open>os.environ\<close>, and the effects so far.\<close>

record session =
  api_key :: string
  uploaded_files :: "file_handle list"
  file_search_store :: "store option"
  model_name :: string
  environ :: "string \<rightharpoonup> string"
  trace :: "event list"

definition emit :: "event \<Rightarrow> session \<Rightarrow> session" where
  "emit e s = s\<lparr>trace := trace s @ [e]\<rparr>"

subsection \<open>Formatting\<close>

definition NL :: string where
  "NL = [CHR 0x0A]"

definition QT :: string where
  "QT = [CHR 0x27]"

fun digit :: "nat \<Rightarrow> char" where
  "digit n = char_of (48 + n mod 10)"

text \<open>\<^verbatim>\<open>str(n)\<close> of a natural number: its decimal digits.\<close>

function str_nat :: "nat \<Rightarrow> string" where
  "str_nat n = (if n < 10 then [digit n] else str_nat (n div 10) @ [digit n])"
  by pat_completeness auto
termination
  by (relation "measure id") auto

text \<open>How an f-string renders a value that is a \<^verbatim>\<open>str\<close> or \<^verbatim>\<open>None\<close>.\<close>

fun str_opt :: "string option \<Rightarrow> string" where
  "str_opt None = ''None''"
| "str_opt (Some t) = t"

subsection \<open>\<^verbatim>\<open>__init__\<close>\<close>

text \<open>Truth value of a \<^verbatim>\<open>str\<close>-or-\<^verbatim>\<open>None\<close>.\<close>

fun truthy :: "string option \<Rightarrow> bool" where
  "truthy None = False"
| "truthy (Some v) = (v \<noteq> [])"

text \<open>
  The constructor, from \<^verbatim>\<open>os.environ\<close> and the argument \<^verbatim>\<open>api_key\<close>. It either
  raises, after the effects listed, or gives the new object. The assignment
  \<^verbatim>\<open>os.environ['GOOGLE_API_KEY'] = self.api_key\<close> raises \<^verbatim>\<open>ValueError\<close> for a key that
  holds a NUL character.
\<close>

definition init :: "(string \<rightharpoonup> string) \<Rightarrow> string option \<Rightarrow> (exn \<times> event list) + session" where
  "init environ0 api_key_arg =
    (case (if truthy api_key_arg then api_key_arg else environ0 ''GEMINI_API_KEY'') of
       None \<Rightarrow> Inl (ValueError ''GEMINI_API_KEY not found in environment variables'', [])
     | Some key \<Rightarrow>
         if key = [] then Inl (ValueError ''GEMINI_API_KEY not found in environment variables'', [])
         else if CHR 0x00 \<in> set key then Inl (ValueError ''embedded null byte'', [])
         else Inr \<lparr> api_key = key,
                    uploaded_files = [],
                    file_search_store = None,
                    model_name = ''gemini-2.5-pro'',
                    environ = environ0(''GOOGLE_API_KEY'' \<mapsto> key),
                    trace = [ClientCreate key,
                             Print (''Initialized with model: '' @ ''gemini-2.5-pro'')] \<rparr>)"

subsection \<open>\<^verbatim>\<open>create_store\<close>\<close>

definition create_store :: "env \<Rightarrow> session \<Rightarrow> string \<Rightarrow> (exn + store) \<times> session" where
  "create_store E s name =
    (let s1 = emit (Print (''Creating file search store: '' @ name)) s;
         s2 = emit (StoresCreate name) s1
     in case stores_create E (trace s1) name of
          Inl e \<Rightarrow> (Inl e, s2)
        | Inr st \<Rightarrow>
            let s3 = s2\<lparr>file_search_store := Some st\<rparr>;
                s4 = emit (Print (''File search store created: '' @ store_name st)) s3
            in (Inr st, s4))"

subsection \<open>\<^verbatim>\<open>upload_file\<close>\<close>

text \<open>
  The loop \<^verbatim>\<open>while not operation.done: time.sleep(2); operation = client.operations.get(operation)\<close>.
  It may run forever: \<open>None\<close> is the run that never leaves the loop. It leaves the loop
  with the operation that reported done, or with the exception of a poll.
\<close>

partial_function (option) poll_import ::
  "env \<Rightarrow> session \<Rightarrow> operation \<Rightarrow> ((exn + operation) \<times> session) option" where
  "poll_import E s operation =
    (if \<not> is_done operation then
       (let s1 = emit (Sleep 2) s;
            s2 = emit (OperationsGet operation) s1
        in case operations_get E (trace s1) operation of
             Inl e \<Rightarrow> Some (Inl e, s2)
           | Inr operation' \<Rightarrow> poll_import E s2 operation')
     else Some (Inr operation, s))"

text \<open>
  The same loop stopped after at most \<open>n\<close> polls: what the loop has done by then. It
  has left the loop when a poll raised or the operation at hand reports done.
\<close>

fun poll_import_upto ::
  "nat \<Rightarrow> env \<Rightarrow> session \<Rightarrow> operation \<Rightarrow> (exn + operation) \<times> session" where
  "poll_import_upto 0 E s operation = (Inr operation, s)"
| "poll_import_upto (Suc n) E s operation =
    (if \<not> is_done operation then
       (let s1 = emit (Sleep 2) s;
            s2 = emit (OperationsGet operation) s1
        in case operations_get E (trace s1) operation of
             Inl e \<Rightarrow> (Inl e, s2)
           | Inr operation' \<Rightarrow> poll_import_upto n E s2 operation')
     else (Inr operation, s))"

definition left_loop :: "(exn + operation) \<times> session \<Rightarrow> bool" where
  "left_loop r = (case fst r of Inl e \<Rightarrow> True | Inr operation \<Rightarrow> is_done operation)"

definition upload_file :: "env \<Rightarrow> session \<Rightarrow> string \<Rightarrow> ((exn + file_handle) \<times> session) option" where
  "upload_file E s file_path =
    (case file_search_store s of
       None \<Rightarrow> Some (Inl (ValueError ''No file search store created. Call create_store() first.''), s)
     | Some st \<Rightarrow>
        (case path_exists E file_path of
           Inl e \<Rightarrow> Some (Inl e, s)
         | Inr False \<Rightarrow>
             Some (Inl (FileNotFoundError (''File not found: '' @ path_str E file_path)), s)
         | Inr True \<Rightarrow>
           let s1 = emit (Print (''Uploading file: '' @ path_name E file_path)) s;
               s2 = emit (FilesUpload (path_str E file_path) (path_name E file_path)) s1
           in case files_upload E (trace s1) (path_str E file_path) (path_name E file_path) of
                Inl e \<Rightarrow> Some (Inl e, s2)
              | Inr uploaded_file \<Rightarrow>
                  let s3 = emit (Print (''File uploaded: '' @ file_name uploaded_file)) s2;
                      s4 = emit (Print ''Importing file into search store...'') s3;
                      s5 = emit (ImportFile (store_name st) (file_name uploaded_file)) s4
                  in case import_file E (trace s4) (store_name st) (file_name uploaded_file) of
                       Inl e \<Rightarrow> Some (Inl e, s5)
                     | Inr operation \<Rightarrow>
                         (case poll_import E s5 operation of
                            None \<Rightarrow> None
                          | Some (Inl e, s6) \<Rightarrow> Some (Inl e, s6)
                          | Some (Inr _, s6) \<Rightarrow>
                              let s7 = emit (Print (''File imported successfully: '' @ path_name E file_path)) s6;
                                  s8 = s7\<lparr>uploaded_files := uploaded_files s7 @ [uploaded_file]\<rparr>
                              in Some (Inr uploaded_file, s8))))"

subsection \<open>\<^verbatim>\<open>upload_multiple_files\<close>\<close>




subsection \<open>\<^verbatim>\<open>query\<close>\<close>

text \<open>The loop that fills the set \<^verbatim>\<open>sources\<close>.\<close>

fun add_sources :: "chunk list \<Rightarrow> string option set \<Rightarrow> string option set" where
  "add_sources [] sources = sources"
| "add_sources (c # cs) sources =
    (case retrieved_context c of
       None \<Rightarrow> add_sources cs sources
     | Some ctx \<Rightarrow> add_sources cs (insert (title ctx) sources))"

text \<open>
  \<^verbatim>\<open>sorted(sources)\<close>: Python orders strings, and a lone \<^verbatim>\<open>None\<close> needs no comparison,
  but comparing \<^verbatim>\<open>None\<close> with a string raises \<^verbatim>\<open>TypeError\<close>, whose text names the type
  of the left operand first.
\<close>

definition sorted_sources :: "env \<Rightarrow> string option set \<Rightarrow> exn + string option list" where
  "sorted_sources E sources =
    (if None \<in> sources then
       (if sources = {None} then Inr [None]
        else if none_on_left E sources then
          Inl (TypeError (QT @ ''<'' @ QT @ '' not supported between instances of ''
                            @ QT @ ''NoneType'' @ QT @ '' and '' @ QT @ ''str'' @ QT))
        else
          Inl (TypeError (QT @ ''<'' @ QT @ '' not supported between instances of ''
                            @ QT @ ''str'' @ QT @ '' and '' @ QT @ ''NoneType'' @ QT)))
     else Inr (map Some (sorted_list_of_set (the ` sources))))"

text \<open>The loop over \<^verbatim>\<open>enumerate(..., 1)\<close> that prints the numbered lines.\<close>

fun print_sources :: "nat \<Rightarrow> string option list \<Rightarrow> session \<Rightarrow> session" where
  "print_sources i [] s = s"
| "print_sources i (source # rest) s =
    print_sources (Suc i) rest (emit (Print (str_nat i @ ''. '' @ str_opt source)) s)"

text \<open>The block \<^verbatim>\<open># Extract and display grounding sources\<close>.\<close>

definition display_grounding :: "env \<Rightarrow> response \<Rightarrow> session \<Rightarrow> (exn + unit) \<times> session" where
  "display_grounding E r s =
    (case candidates r of
       None \<Rightarrow> (Inr (), emit (Print ''No candidate responses found'') s)
     | Some [] \<Rightarrow> (Inr (), emit (Print ''No candidate responses found'') s)
     | Some (c # _) \<Rightarrow>
         (case grounding_metadata c of
            None \<Rightarrow> (Inr (), emit (Print ''No grounding sources found'') s)
          | Some g \<Rightarrow>
              (case grounding_chunks g of
                 None \<Rightarrow> (Inr (), emit (Print ''No grounding sources found'') s)
               | Some [] \<Rightarrow> (Inr (), emit (Print ''No grounding sources found'') s)
               | Some chunks \<Rightarrow>
                   let sources = add_sources chunks {}
                   in if sources \<noteq> {} then
                        (let s1 = emit (Print (NL @ ''Sources:'')) s
                         in case sorted_sources E sources of
                              Inl e \<Rightarrow> (Inl e, s1)
                            | Inr srcs \<Rightarrow> (Inr (), print_sources 1 srcs s1))
                      else (Inr (), s))))"

definition query :: "env \<Rightarrow> session \<Rightarrow> string \<Rightarrow> (exn + response) \<times> session" where
  "query E s question =
    (case file_search_store s of
       None \<Rightarrow> (Inl (ValueError ''No file search store created. Call create_store() first.''), s)
     | Some st \<Rightarrow>
         if uploaded_files s = []
         then (Inl (ValueError ''No files uploaded. Call upload_file() first.''), s)
         else
           let s1 = emit (Print (NL @ ''Query: '' @ question)) s;
               s2 = emit (Print (replicate 50 CHR ''-'')) s1;
               s3 = emit (GenerateContent (model_name s) question [store_name st]) s2
           in case generate_content E (trace s2) (model_name s) question [store_name st] of
                Inl e \<Rightarrow> (Inl e, s3)
              | Inr r \<Rightarrow>
                  let s4 = emit (Print (NL @ ''Answer:'' @ NL @ str_opt (response_text r) @ NL)) s3
                  in case display_grounding E r s4 of
                       (Inl e, s5) \<Rightarrow> (Inl e, s5)
                     | (Inr _, s5) \<Rightarrow> (Inr r, s5))"

subsection \<open>\<^verbatim>\<open>list_files\<close>, \<^verbatim>\<open>list_stores\<close>\<close>

definition list_files :: "env \<Rightarrow> session \<Rightarrow> file_handle list \<times> session" where
  "list_files E s =
    (let s1 = emit FilesList s
     in case files_list E (trace s) of
          Inr all_files \<Rightarrow> (all_files, s1)
        | Inl e \<Rightarrow> ([], emit (Print (''Error listing files: '' @ str_exn e)) s1))"

definition list_stores :: "env \<Rightarrow> session \<Rightarrow> store list \<times> session" where
  "list_stores E s =
    (let s1 = emit StoresList s
     in case stores_list E (trace s) of
          Inr stores \<Rightarrow> (stores, s1)
        | Inl e \<Rightarrow> ([], emit (Print (''Error listing stores: '' @ str_exn e)) s1))"

subsection \<open>\<^verbatim>\<open>delete_files\<close>\<close>

text \<open>The \<^verbatim>\<open>for\<close> loop with its \<^verbatim>\<open>try\<close>/\<^verbatim>\<open>except Exception\<close>.\<close>

fun delete_loop :: "env \<Rightarrow> file_handle list \<Rightarrow> session \<Rightarrow> session" where
  "delete_loop E [] s = s"
| "delete_loop E (f # rest) s =
    (let s1 = emit (FilesDelete (file_name f)) s
     in case files_delete E (trace s) (file_name f) of
          Inr _ \<Rightarrow> delete_loop E rest (emit (Print (''Deleted: '' @ file_name f)) s1)
        | Inl e \<Rightarrow>
            delete_loop E rest
              (emit (Print (''Error deleting '' @ file_name f @ '': '' @ str_exn e)) s1))"

definition delete_files :: "env \<Rightarrow> session \<Rightarrow> session" where
  "delete_files E s =
    (let s1 = emit (Print (''Deleting '' @ str_nat (length (uploaded_files s)) @ '' uploaded files...'')) s;
         s2 = delete_loop E (uploaded_files s1) s1;
         s3 = s2\<lparr>uploaded_files := []\<rparr>
     in emit (Print ''All files deleted'') s3)"

subsection \<open>\<^verbatim>\<open>delete_store\<close>\<close>

definition delete_store :: "env \<Rightarrow> session \<Rightarrow> session" where
  "delete_store E s =
    (case file_search_store s of
       Some st \<Rightarrow>
         (let s1 = emit (StoresDelete (store_name st)) s
          in case stores_delete E (trace s) (store_name st) of
               Inr _ \<Rightarrow>
                 (emit (Print (''Deleted file search store: '' @ store_name st)) s1)
                   \<lparr>file_search_store := None\<rparr>
             | Inl e \<Rightarrow> emit (Print (''Error deleting store: '' @ str_exn e)) s1)
     | None \<Rightarrow> emit (Print ''No file search store to delete'') s)"

section \<open>Example surroundings\<close>

text \<open>
  A filesystem with two documents, where a path of more than 255 characters is refused
  as too long, and a service that answers every call: an import is reported done at the second poll,
  deleting \<^verbatim>\<open>files/b.md\<close> fails, and the answer to a question is grounded in four
  chunks, one of them without a retrieved context, with two distinct titles.
\<close>

definition basename :: "string \<Rightarrow> string" where
  "basename p = rev (takeWhile (\<lambda>c. c \<noteq> CHR ''/'') (rev p))"

definition demo_response :: response where
  "demo_response =
     Response (Some ''42'')
       (Some [Candidate (Some (Grounding (Some
          [Chunk (Some (Retrieved (Some ''b.md''))),
           Chunk (Some (Retrieved (Some ''a.txt''))),
           Chunk None,
           Chunk (Some (Retrieved (Some ''b.md'')))])))])"

definition demo_env :: env where
  "demo_env =
     \<lparr> path_exists = (\<lambda>p.
          if 255 < length p
          then Inl (OSError (''[Errno 36] File name too long: '' @ QT @ p @ QT))
          else Inr (p = ''documents/a.txt'' \<or> p = ''documents/b.md'')),
       path_str = (\<lambda>p. p),
       path_name = basename,
       stores_create = (\<lambda>tr n. Inr (Store (''fileSearchStores/'' @ n))),
       stores_list = (\<lambda>tr. Inr []),
       stores_delete = (\<lambda>tr n. Inr ()),
       files_upload = (\<lambda>tr f d. Inr (File (''files/'' @ d))),
       files_list = (\<lambda>tr. Inr []),
       files_delete = (\<lambda>tr n. if n = ''files/b.md'' then Inl (RemoteError ''404'') else Inr ()),
       import_file = (\<lambda>tr st f. Inr (Operation (''operations/'' @ f) False)),
       operations_get = (\<lambda>tr operation.
          Inr (Operation (op_name operation) (OperationsGet operation \<in> set tr))),
       generate_content = (\<lambda>tr m q names. Inr demo_response),
       none_on_left = (\<lambda>sources. True) \<rparr>"

text \<open>The same service when every delete and every poll fails.\<close>

definition failing_env :: env where
  "failing_env =
     demo_env \<lparr> stores_delete := (\<lambda>tr n. Inl (RemoteError ''503'')),
                files_delete := (\<lambda>tr n. Inl (RemoteError ''503'')),
                operations_get := (\<lambda>tr operation. Inl (RemoteError ''503'')) \<rparr>"

text \<open>The same service when an import is never reported done.\<close>

definition stuck_env :: env where
  "stuck_env = demo_env \<lparr> operations_get := (\<lambda>tr operation. Inr operation) \<rparr>"

text \<open>A session right after the constructor, one with a store, and one with two files.\<close>

definition fresh :: session where
  "fresh =
     \<lparr> api_key = ''k'', uploaded_files = [], file_search_store = None,
       model_name = ''gemini-2.5-pro'', environ = [''GOOGLE_API_KEY'' \<mapsto> ''k''],
       trace = [] \<rparr>"

definition with_store :: session where
  "with_store = fresh \<lparr> file_search_store := Some (Store ''fileSearchStores/kb'') \<rparr>"

definition ready :: session where
  "ready = with_store \<lparr> uploaded_files := [File ''files/a.txt'', File ''files/b.md''] \<rparr>"



section \<open>Properties\<close>

lemma trace_emit: "trace (emit e s) = trace s @ [e]"
  by (simp add: emit_def)

lemma uploaded_files_emit: "uploaded_files (emit e s) = uploaded_files s"
  by (simp add: emit_def)

lemma file_search_store_emit: "file_search_store (emit e s) = file_search_store s"
  by (simp add: emit_def)

subsection \<open>The polling loop\<close>

lemma poll_import_upto_left:
  "left_loop (poll_import_upto n E s operation) \<Longrightarrow>
     poll_import E s operation = Some (poll_import_upto n E s operation)"
proof (induction n arbitrary: s operation)
  case 0
  then show ?case by (subst poll_import.simps) (simp add: left_loop_def)
next
  case (Suc n)
  show ?case
  proof (cases "is_done operation")
    case True
    then show ?thesis by (subst poll_import.simps) simp
  next
    case False
    show ?thesis
    proof (cases "operations_get E (trace (emit (Sleep 2) s)) operation")
      case (Inl e)
      with False show ?thesis by (subst poll_import.simps) (simp add: Let_def)
    next
      case (Inr operation')
      with False Suc.prems
      have "left_loop (poll_import_upto n E (emit (OperationsGet operation) (emit (Sleep 2) s)) operation')"
        by (simp add: Let_def)
      from Suc.IH [OF this] False Inr show ?thesis
        by (subst poll_import.simps) (simp add: Let_def)
    qed
  qed
qed

lemma poll_import_Some:
  assumes "poll_import E s operation = Some r"
  shows "\<exists>n. poll_import_upto n E s operation = r \<and> left_loop r"
  using assms
proof (induct rule: poll_import.raw_induct [rotated 1, consumes 1, case_names step])
  case (step poll E s operation r)
  note 1 = this
  show ?case
  proof (cases "is_done operation")
    case True
    with 1(2) have "poll_import_upto 0 E s operation = r \<and> left_loop r"
      by (auto simp: left_loop_def)
    then show ?thesis by blast
  next
    case False
    show ?thesis
    proof (cases "operations_get E (trace (emit (Sleep 2) s)) operation")
      case (Inl e)
      with False 1(2) have "poll_import_upto (Suc 0) E s operation = r \<and> left_loop r"
        by (auto simp: left_loop_def Let_def)
      then show ?thesis by blast
    next
      case (Inr operation')
      with False 1(2)
      have "poll E (emit (OperationsGet operation) (emit (Sleep 2) s)) operation' = Some r"
        by (simp add: Let_def)
      from 1(1) [OF this] obtain n where
        "poll_import_upto n E (emit (OperationsGet operation) (emit (Sleep 2) s)) operation' = r"
        "left_loop r" by blast
      with False Inr have "poll_import_upto (Suc n) E s operation = r \<and> left_loop r"
        by (simp add: Let_def)
      then show ?thesis by blast
    qed
  qed
qed



lemma poll_import_upto_trace:
  "\<exists>ops. length ops \<le> n \<and>
         (\<not> left_loop (poll_import_upto n E s operation) \<longrightarrow> length ops = n) \<and>
         trace (snd (poll_import_upto n E s operation)) =
           trace s @ concat (map (\<lambda>operation. [Sleep 2, OperationsGet operation]) ops)"
proof (induction n arbitrary: s operation)
  case 0
  show ?case by simp
next
  case (Suc n)
  show ?case
  proof (cases "is_done operation")
    case True
    then show ?thesis by (simp add: left_loop_def)
  next
    case False
    let ?s2 = "emit (OperationsGet operation) (emit (Sleep 2) s)"
    show ?thesis
    proof (cases "operations_get E (trace (emit (Sleep 2) s)) operation")
      case (Inl e)
      with False have "length [operation] \<le> Suc n \<and>
         (\<not> left_loop (poll_import_upto (Suc n) E s operation) \<longrightarrow> length [operation] = Suc n) \<and>
         trace (snd (poll_import_upto (Suc n) E s operation)) =
           trace s @ concat (map (\<lambda>operation. [Sleep 2, OperationsGet operation]) [operation])"
        by (simp add: Let_def trace_emit left_loop_def)
      then show ?thesis by blast
    next
      case (Inr operation')
      from Suc.IH [of ?s2 operation'] obtain ops where ops:
        "length ops \<le> n"
        "\<not> left_loop (poll_import_upto n E ?s2 operation') \<longrightarrow> length ops = n"
        "trace (snd (poll_import_upto n E ?s2 operation')) =
           trace ?s2 @ concat (map (\<lambda>operation. [Sleep 2, OperationsGet operation]) ops)"
        by blast
      with False Inr have "length (operation # ops) \<le> Suc n \<and>
         (\<not> left_loop (poll_import_upto (Suc n) E s operation) \<longrightarrow> length (operation # ops) = Suc n) \<and>
         trace (snd (poll_import_upto (Suc n) E s operation)) =
           trace s @ concat (map (\<lambda>operation. [Sleep 2, OperationsGet operation]) (operation # ops))"
        by (simp add: Let_def trace_emit)
      then show ?thesis by blast
    qed
  qed
qed


subsection \<open>The claims\<close>

text \<open>
  C1. In a session with no file search store, \<^verbatim>\<open>query\<close> raises \<^verbatim>\<open>ValueError\<close> and the
  session, with its trace of effects, is as before: no remote call was made.
\<close>

theorem query_without_store:
  "file_search_store s = None \<Longrightarrow>
     query E s question =
       (Inl (ValueError ''No file search store created. Call create_store() first.''), s)"
  by (simp add: query_def)

theorem query_without_store_witness:
  "file_search_store fresh = None \<and>
   query demo_env fresh ''why?'' =
     (Inl (ValueError ''No file search store created. Call create_store() first.''), fresh)"
  using query_without_store [of fresh demo_env "''why?''"] by (simp add: fresh_def)

text \<open>
  C2. In a session with a store and an empty list of uploaded files, \<^verbatim>\<open>query\<close> raises
  \<^verbatim>\<open>ValueError\<close> and the session, with its trace of effects, is as before: the
  exception comes before any remote call.
\<close>

theorem query_without_files:
  "file_search_store s = Some st \<Longrightarrow> uploaded_files s = [] \<Longrightarrow>
     query E s question =
       (Inl (ValueError ''No files uploaded. Call upload_file() first.''), s)"
  by (simp add: query_def)

theorem query_without_files_witness:
  "file_search_store with_store = Some (Store ''fileSearchStores/kb'') \<and>
   uploaded_files with_store = [] \<and>
   query demo_env with_store ''why?'' =
     (Inl (ValueError ''No files uploaded. Call upload_file() first.''), with_store)"
  using query_without_files [of with_store "Store ''fileSearchStores/kb''" demo_env "''why?''"]
  by (simp add: with_store_def fresh_def)

text \<open>
  C9. With no \<^verbatim>\<open>api_key\<close> argument and the variable \<^verbatim>\<open>GEMINI_API_KEY\<close> absent or
  empty, the constructor raises \<^verbatim>\<open>ValueError\<close> and has performed no effect: no client
  was created and nothing remote was done.
\<close>

theorem init_without_credential:
  "environ0 ''GEMINI_API_KEY'' = None \<or> environ0 ''GEMINI_API_KEY'' = Some [] \<Longrightarrow>
     init environ0 None =
       Inl (ValueError ''GEMINI_API_KEY not found in environment variables'', [])"
  by (auto simp: init_def)

theorem init_without_credential_witness:
  "([''GEMINI_API_KEY'' \<mapsto> []] ''GEMINI_API_KEY'' = None \<or>
    [''GEMINI_API_KEY'' \<mapsto> []] ''GEMINI_API_KEY'' = Some []) \<and>
   init [''GEMINI_API_KEY'' \<mapsto> []] None =
     Inl (ValueError ''GEMINI_API_KEY not found in environment variables'', [])"
  using init_without_credential [of "[''GEMINI_API_KEY'' \<mapsto> []]"] by simp

text \<open>
  C3, as the code has it. \<^verbatim>\<open>upload_file\<close> tests the store before the path, and
  \<^verbatim>\<open>Path.exists()\<close> answers \<^verbatim>\<open>False\<close> for a path that does not exist or raises what the
  operating system reports for it; it never answers \<^verbatim>\<open>True\<close>. For such a path
  \<^verbatim>\<open>upload_file\<close> makes no remote call (the session and its trace are as before) and
  raises: the \<^verbatim>\<open>ValueError\<close> of the missing store when there is no store, else
  \<^verbatim>\<open>FileNotFoundError\<close> when \<^verbatim>\<open>Path.exists()\<close> answers \<^verbatim>\<open>False\<close>, else the exception that
  \<^verbatim>\<open>Path.exists()\<close> raises.
\<close>

theorem upload_file_missing_path:
  "path_exists E file_path \<noteq> Inr True \<Longrightarrow>
     upload_file E s file_path =
       Some (case file_search_store s of
               None \<Rightarrow> Inl (ValueError ''No file search store created. Call create_store() first.'')
             | Some st \<Rightarrow>
                 (case path_exists E file_path of
                    Inl e \<Rightarrow> Inl e
                  | Inr b \<Rightarrow> Inl (FileNotFoundError (''File not found: '' @ path_str E file_path))),
             s)"
proof (cases "path_exists E file_path")
  case (Inl e)
  then show ?thesis by (simp add: upload_file_def split: option.splits)
next
  case (Inr b)
  assume "path_exists E file_path \<noteq> Inr True"
  with Inr have "path_exists E file_path = Inr False" by simp
  then show ?thesis by (simp add: upload_file_def split: option.splits)
qed

theorem upload_file_missing_path_witness:
  "path_exists demo_env ''documents/none.txt'' \<noteq> Inr True \<and>
   upload_file demo_env with_store ''documents/none.txt'' =
     Some (Inl (FileNotFoundError ''File not found: documents/none.txt''), with_store)"
  using upload_file_missing_path [of demo_env "''documents/none.txt''" with_store]
  by (simp add: demo_env_def with_store_def fresh_def)

text \<open>
  C3, as the specification has it, fails twice. In a session with no store the path
  that does not exist gives the \<^verbatim>\<open>ValueError\<close> of the missing store. In a session with
  a store, a path of 300 characters, which does not exist, gives the \<^verbatim>\<open>OSError\<close> that
  \<^verbatim>\<open>Path.exists()\<close> raises for it, not \<^verbatim>\<open>FileNotFoundError\<close>.
\<close>

theorem upload_file_missing_path_counterexample:
  "path_exists demo_env ''documents/none.txt'' = Inr False \<and>
   upload_file demo_env fresh ''documents/none.txt'' =
     Some (Inl (ValueError ''No file search store created. Call create_store() first.''), fresh) \<and>
   path_exists demo_env (replicate 300 CHR ''a'') =
     Inl (OSError (''[Errno 36] File name too long: '' @ QT @ replicate 300 CHR ''a'' @ QT)) \<and>
   upload_file demo_env with_store (replicate 300 CHR ''a'') =
     Some (Inl (OSError (''[Errno 36] File name too long: '' @ QT @ replicate 300 CHR ''a'' @ QT)),
           with_store)"
  by (simp add: upload_file_def demo_env_def with_store_def fresh_def)

text \<open>
  C6. Whatever the remote service answers to each delete, also when every delete
  raises, after \<^verbatim>\<open>delete_files\<close> the list \<^verbatim>\<open>uploaded_files\<close> is empty, and the remote
  calls it made are one delete for each entry of the list it started with, in order.
\<close>

lemma delete_loop_uploaded: "uploaded_files (delete_loop E fs s) = uploaded_files s"
  by (induction fs arbitrary: s) (simp_all add: uploaded_files_emit Let_def split: sum.splits)

lemma delete_loop_trace:
  "\<exists>new. trace (delete_loop E fs s) = trace s @ new \<and>
         filter is_remote new = map (\<lambda>f. FilesDelete (file_name f)) fs"
proof (induction fs arbitrary: s)
  case Nil
  show ?case by simp
next
  case (Cons f rest)
  show ?case
  proof (cases "files_delete E (trace s) (file_name f)")
    case (Inl e)
    let ?s' = "emit (Print (''Error deleting '' @ file_name f @ '': '' @ str_exn e))
                 (emit (FilesDelete (file_name f)) s)"
    from Cons.IH [of ?s'] obtain new where
      "trace (delete_loop E rest ?s') = trace ?s' @ new"
      "filter is_remote new = map (\<lambda>f. FilesDelete (file_name f)) rest" by blast
    with Inl show ?thesis by (simp add: trace_emit)
  next
    case (Inr u)
    let ?s' = "emit (Print (''Deleted: '' @ file_name f)) (emit (FilesDelete (file_name f)) s)"
    from Cons.IH [of ?s'] obtain new where
      "trace (delete_loop E rest ?s') = trace ?s' @ new"
      "filter is_remote new = map (\<lambda>f. FilesDelete (file_name f)) rest" by blast
    with Inr show ?thesis by (simp add: trace_emit)
  qed
qed

theorem delete_files_clears:
  "uploaded_files (delete_files E s) = [] \<and>
   (\<exists>new. trace (delete_files E s) = trace s @ new \<and>
          filter is_remote new = map (\<lambda>f. FilesDelete (file_name f)) (uploaded_files s))"
proof -
  let ?p = "Print (''Deleting '' @ str_nat (length (uploaded_files s)) @ '' uploaded files...'')"
  obtain new where n: "trace (delete_loop E (uploaded_files s) (emit ?p s)) = trace (emit ?p s) @ new"
      "filter is_remote new = map (\<lambda>f. FilesDelete (file_name f)) (uploaded_files s)"
    using delete_loop_trace by blast
  have "uploaded_files (delete_files E s) = []"
    by (simp add: delete_files_def Let_def uploaded_files_emit)
  moreover have "trace (delete_files E s) = trace s @ (?p # new @ [Print ''All files deleted''])"
    using n(1) by (simp add: delete_files_def Let_def uploaded_files_emit trace_emit)
  ultimately show ?thesis using n(2) by auto
qed

text \<open>
  C8, as the code has it. With an active store, \<^verbatim>\<open>delete_store\<close> makes one remote
  delete for the store, reports the outcome and returns. The assignment
  \<^verbatim>\<open>self.file_search_store = None\<close> is inside the \<^verbatim>\<open>try\<close>, after the remote call: the
  reference is cleared when the remote delete succeeds and kept when it raises.
\<close>

theorem delete_store_outcome:
  "file_search_store s = Some st \<Longrightarrow>
     trace (delete_store E s) =
       trace s @ [StoresDelete (store_name st),
                  Print (case stores_delete E (trace s) (store_name st) of
                           Inr _ \<Rightarrow> ''Deleted file search store: '' @ store_name st
                         | Inl e \<Rightarrow> ''Error deleting store: '' @ str_exn e)] \<and>
     file_search_store (delete_store E s) =
       (case stores_delete E (trace s) (store_name st) of
          Inr _ \<Rightarrow> None
        | Inl e \<Rightarrow> Some st)"
  by (simp add: delete_store_def Let_def trace_emit file_search_store_emit split: sum.splits)

theorem delete_store_outcome_witness:
  "file_search_store with_store = Some (Store ''fileSearchStores/kb'') \<and>
   trace (delete_store demo_env with_store) =
     [StoresDelete ''fileSearchStores/kb'',
      Print ''Deleted file search store: fileSearchStores/kb''] \<and>
   file_search_store (delete_store demo_env with_store) = None"
  using delete_store_outcome [of with_store "Store ''fileSearchStores/kb''" demo_env]
  by (simp add: with_store_def fresh_def demo_env_def)

text \<open>
  C8, as the specification has it, fails when the remote delete raises: the session
  still refers to the store afterwards.
\<close>

theorem delete_store_counterexample:
  "file_search_store with_store = Some (Store ''fileSearchStores/kb'') \<and>
   stores_delete failing_env (trace with_store) ''fileSearchStores/kb'' = Inl (RemoteError ''503'') \<and>
   file_search_store (delete_store failing_env with_store) = Some (Store ''fileSearchStores/kb'')"
  by (simp add: delete_store_def with_store_def fresh_def failing_env_def demo_env_def emit_def)

text \<open>
  C7, as the code has it. The loop sleeps two seconds before every poll and has no
  timeout and no cap on the polls. It ends exactly when, after some number of polls, a
  poll has raised or the operation at hand reports done: with that exception, or with
  that operation. Otherwise it never ends; and a run that has not left the loop after
  \<open>n\<close> polls, for any \<open>n\<close>, has by then slept \<open>n\<close> times and polled \<open>n\<close> times.
\<close>

theorem poll_import_runs:
  "(poll_import E s operation = Some r \<longleftrightarrow>
      (\<exists>n. poll_import_upto n E s operation = r \<and> left_loop r)) \<and>
   (poll_import E s operation = None \<longleftrightarrow>
      (\<forall>n. \<not> left_loop (poll_import_upto n E s operation))) \<and>
   (\<forall>n. \<not> left_loop (poll_import_upto n E s operation) \<longrightarrow>
      (\<exists>ops. length ops = n \<and>
             trace (snd (poll_import_upto n E s operation)) =
               trace s @ concat (map (\<lambda>operation. [Sleep 2, OperationsGet operation]) ops)))"
proof -
  have a: "poll_import E s operation = Some r \<longleftrightarrow>
      (\<exists>n. poll_import_upto n E s operation = r \<and> left_loop r)" for r
    using poll_import_Some poll_import_upto_left by blast
  have b: "poll_import E s operation = None \<longleftrightarrow>
      (\<forall>n. \<not> left_loop (poll_import_upto n E s operation))"
  proof
    assume none: "poll_import E s operation = None"
    show "\<forall>n. \<not> left_loop (poll_import_upto n E s operation)"
    proof
      fix n
      show "\<not> left_loop (poll_import_upto n E s operation)"
        using poll_import_upto_left [of n E s operation] none by auto
    qed
  next
    assume never: "\<forall>n. \<not> left_loop (poll_import_upto n E s operation)"
    show "poll_import E s operation = None"
    proof (cases "poll_import E s operation")
      case None
      then show ?thesis .
    next
      case (Some r)
      with poll_import_Some [of E s operation r] never show ?thesis by blast
    qed
  qed
  have c: "\<forall>n. \<not> left_loop (poll_import_upto n E s operation) \<longrightarrow>
      (\<exists>ops. length ops = n \<and>
             trace (snd (poll_import_upto n E s operation)) =
               trace s @ concat (map (\<lambda>operation. [Sleep 2, OperationsGet operation]) ops))"
    using poll_import_upto_trace [of _ E s operation] by blast
  from a b c show ?thesis by blast
qed

theorem poll_import_runs_witness:
  "poll_import demo_env with_store (Operation ''operations/x'' False) =
     Some (Inr (Operation ''operations/x'' True),
           with_store \<lparr> trace := [Sleep 2, OperationsGet (Operation ''operations/x'' False),
                                  Sleep 2, OperationsGet (Operation ''operations/x'' False)] \<rparr>) \<and>
   poll_import stuck_env with_store (Operation ''operations/x'' False) = None"
proof -
  let ?op = "Operation ''operations/x'' False"
  let ?r = "(Inr (Operation ''operations/x'' True),
             with_store \<lparr> trace := [Sleep 2, OperationsGet ?op, Sleep 2, OperationsGet ?op] \<rparr>)"
  have two: "poll_import_upto (Suc (Suc 0)) demo_env with_store ?op = ?r"
    by (simp add: demo_env_def with_store_def fresh_def emit_def)
  have left: "left_loop ?r"
    by (simp add: left_loop_def)
  from two left have ex: "\<exists>n. poll_import_upto n demo_env with_store ?op = ?r \<and> left_loop ?r"
    by (intro exI conjI)
  have never: "\<forall>n. \<not> left_loop (poll_import_upto n stuck_env with_store ?op)"
  proof
    fix n
    have "\<not> left_loop (poll_import_upto n stuck_env s ?op)" for s
      by (induction n arbitrary: s) (simp_all add: left_loop_def stuck_env_def demo_env_def)
    then show "\<not> left_loop (poll_import_upto n stuck_env with_store ?op)" .
  qed
  from poll_import_runs [of demo_env with_store ?op ?r]
  have "poll_import demo_env with_store ?op = Some ?r \<longleftrightarrow>
          (\<exists>n. poll_import_upto n demo_env with_store ?op = ?r \<and> left_loop ?r)"
    by (rule conjunct1)
  from iffD2 [OF this ex] have a: "poll_import demo_env with_store ?op = Some ?r" .
  from poll_import_runs [of stuck_env with_store ?op ?r]
  have "poll_import stuck_env with_store ?op = None \<longleftrightarrow>
          (\<forall>n. \<not> left_loop (poll_import_upto n stuck_env with_store ?op))"
    by (elim conjE)
  from iffD2 [OF this never] have b: "poll_import stuck_env with_store ?op = None" .
  from a b show ?thesis by (rule conjI)
qed

text \<open>
  C7, as the specification has it, fails when a poll raises: the loop ends, with the
  exception, although the operation never reported done.
\<close>

theorem poll_import_counterexample:
  "\<not> is_done (Operation ''operations/x'' False) \<and>
   operations_get failing_env (trace (emit (Sleep 2) with_store)) (Operation ''operations/x'' False) =
     Inl (RemoteError ''503'') \<and>
   poll_import failing_env with_store (Operation ''operations/x'' False) =
     Some (Inl (RemoteError ''503''),
           with_store \<lparr> trace := [Sleep 2, OperationsGet (Operation ''operations/x'' False)] \<rparr>)"
  by (simp add: poll_import.simps failing_env_def demo_env_def with_store_def fresh_def emit_def)



subsection \<open>The batch loop\<close>






subsection \<open>The grounding sources\<close>

lemma add_sources_eq:
  "add_sources chunks S =
     S \<union> {title ctx |ctx. \<exists>ch\<in>set chunks. retrieved_context ch = Some ctx}"
  by (induction chunks arbitrary: S) (auto split: option.splits)

lemma add_sources_titled:
  assumes "\<forall>ch\<in>set chunks. \<forall>ctx. retrieved_context ch = Some ctx \<longrightarrow> title ctx \<noteq> None"
  shows "add_sources chunks {} =
           Some ` {t. \<exists>ch\<in>set chunks. retrieved_context ch = Some (Retrieved (Some t))}"
proof -
  have "{title ctx |ctx. \<exists>ch\<in>set chunks. retrieved_context ch = Some ctx} =
        Some ` {t. \<exists>ch\<in>set chunks. retrieved_context ch = Some (Retrieved (Some t))}"
    (is "?A = ?B")
  proof
    show "?A \<subseteq> ?B"
    proof
      fix x assume "x \<in> ?A"
      then obtain ctx ch where c: "x = title ctx" "ch \<in> set chunks" "retrieved_context ch = Some ctx"
        by blast
      with assms obtain t where t: "title ctx = Some t" by blast
      then have "ctx = Retrieved (Some t)" by (cases ctx) simp
      with c t show "x \<in> ?B" by blast
    qed
    show "?B \<subseteq> ?A" by force
  qed
  then show ?thesis by (simp add: add_sources_eq)
qed

lemma finite_titles:
  "finite {t. \<exists>ch\<in>set chunks. retrieved_context ch = Some (Retrieved (Some t))}"
proof -
  have "{t. \<exists>ch\<in>set chunks. retrieved_context ch = Some (Retrieved (Some t))}
          \<subseteq> (\<lambda>ch. case retrieved_context ch of Some (Retrieved (Some t)) \<Rightarrow> t | _ \<Rightarrow> []) ` set chunks"
    by force
  then show ?thesis by (rule finite_subset) simp
qed

lemma sorted_sources_titled:
  "sorted_sources E (Some ` T) = Inr (map Some (sorted_list_of_set T))"
  by (simp add: sorted_sources_def image_image)

lemma print_sources_trace:
  "print_sources i srcs s =
     s\<lparr>trace := trace s @ map (\<lambda>(k, src). Print (str_nat k @ ''. '' @ str_opt src))
                             (List.enumerate i srcs)\<rparr>"
  by (induction srcs arbitrary: i s) (simp_all add: emit_def)

lemma display_grounding_titled:
  assumes "\<forall>ch\<in>set chunks. \<forall>ctx. retrieved_context ch = Some ctx \<longrightarrow> title ctx \<noteq> None"
  shows "display_grounding E (Response txt (Some (Candidate (Some (Grounding (Some chunks))) # cs))) s =
     (Inr (),
      s\<lparr>trace := trace s @
         (if chunks = [] then [Print ''No grounding sources found'']
          else if {t. \<exists>ch\<in>set chunks. retrieved_context ch = Some (Retrieved (Some t))} = {} then []
          else Print (NL @ ''Sources:'') #
               map (\<lambda>(i, t). Print (str_nat i @ ''. '' @ t))
                 (List.enumerate 1 (sorted_list_of_set
                    {t. \<exists>ch\<in>set chunks. retrieved_context ch = Some (Retrieved (Some t))})))\<rparr>)"
proof (cases chunks)
  case Nil
  then show ?thesis by (simp add: display_grounding_def emit_def)
next
  case (Cons c0 rest)
  let ?T = "{t. \<exists>ch\<in>set chunks. retrieved_context ch = Some (Retrieved (Some t))}"
  have src: "add_sources chunks {} = Some ` ?T" using assms by (rule add_sources_titled)
  have unfold: "display_grounding E (Response txt (Some (Candidate (Some (Grounding (Some chunks))) # cs))) s =
    (if Some ` ?T \<noteq> {} then
       (case sorted_sources E (Some ` ?T) of
          Inl e \<Rightarrow> (Inl e, emit (Print (NL @ ''Sources:'')) s)
        | Inr srcs \<Rightarrow> (Inr (), print_sources 1 srcs (emit (Print (NL @ ''Sources:'')) s)))
     else (Inr (), s))"
    using Cons src [unfolded Cons] by (simp add: display_grounding_def Let_def)
  show ?thesis
  proof (cases "?T = {}")
    case True
    with unfold Cons show ?thesis by simp
  next
    case False
    have "map (\<lambda>(k, src). Print (str_nat k @ ''. '' @ str_opt src))
            (List.enumerate 1 (map Some (sorted_list_of_set ?T))) =
          map (\<lambda>(i, t). Print (str_nat i @ ''. '' @ t)) (List.enumerate 1 (sorted_list_of_set ?T))"
      by (simp add: enumerate_map_upt enumerate_eq_zip zip_map2 case_prod_unfold)
    with unfold False Cons show ?thesis
      by (simp add: sorted_sources_titled print_sources_trace emit_def del: One_nat_def)
  qed
qed

lemma query_titled:
  assumes store: "file_search_store s = Some st" and files: "uploaded_files s \<noteq> []"
    and resp: "generate_content E
                 (trace s @ [Print (NL @ ''Query: '' @ question), Print (replicate 50 CHR ''-'')])
                 (model_name s) question [store_name st] =
               Inr (Response txt (Some (Candidate (Some (Grounding (Some chunks))) # cs)))"
    and titled: "\<forall>ch\<in>set chunks. \<forall>ctx. retrieved_context ch = Some ctx \<longrightarrow> title ctx \<noteq> None"
  shows "query E s question =
     (Inr (Response txt (Some (Candidate (Some (Grounding (Some chunks))) # cs))),
      s\<lparr>trace := trace s @
         [Print (NL @ ''Query: '' @ question), Print (replicate 50 CHR ''-''),
          GenerateContent (model_name s) question [store_name st],
          Print (NL @ ''Answer:'' @ NL @ str_opt txt @ NL)] @
         (if chunks = [] then [Print ''No grounding sources found'']
          else if {t. \<exists>ch\<in>set chunks. retrieved_context ch = Some (Retrieved (Some t))} = {} then []
          else Print (NL @ ''Sources:'') #
               map (\<lambda>(i, t). Print (str_nat i @ ''. '' @ t))
                 (List.enumerate 1 (sorted_list_of_set
                    {t. \<exists>ch\<in>set chunks. retrieved_context ch = Some (Retrieved (Some t))})))\<rparr>)"
proof -
  let ?r = "Response txt (Some (Candidate (Some (Grounding (Some chunks))) # cs))"
  define s4 where "s4 = emit (Print (NL @ ''Answer:'' @ NL @ str_opt txt @ NL))
     (emit (GenerateContent (model_name s) question [store_name st])
        (emit (Print (replicate 50 CHR ''-'')) (emit (Print (NL @ ''Query: '' @ question)) s)))"
  have t2: "trace (emit (Print (replicate 50 CHR ''-'')) (emit (Print (NL @ ''Query: '' @ question)) s)) =
        trace s @ [Print (NL @ ''Query: '' @ question), Print (replicate 50 CHR ''-'')]"
    by (simp add: emit_def)
  have q: "query E s question =
     (case display_grounding E ?r s4 of (Inl e, s5) \<Rightarrow> (Inl e, s5) | (Inr _, s5) \<Rightarrow> (Inr ?r, s5))"
    using store files resp unfolding query_def Let_def s4_def t2 by simp
  have s4: "s4 = s\<lparr>trace := trace s @
         [Print (NL @ ''Query: '' @ question), Print (replicate 50 CHR ''-''),
          GenerateContent (model_name s) question [store_name st],
          Print (NL @ ''Answer:'' @ NL @ str_opt txt @ NL)]\<rparr>"
    by (simp add: s4_def emit_def)
  show ?thesis
    unfolding q display_grounding_titled [OF titled] by (simp add: s4)
qed

lemma str_nat_1_2: "str_nat (Suc 0) = ''1''" "str_nat (Suc (Suc 0)) = ''2''"
  by code_simp+

text \<open>
  C5. When \<^verbatim>\<open>query\<close> gets a response whose first candidate has grounding chunks, each
  title a string (a chunk may also have no retrieved context: it is skipped), the source
  lines it prints, numbered from 1, are the list \<open>ts\<close> that holds each distinct title
  exactly once, in ascending lexicographic order. A response that differs only by the
  order of its chunks (and in the candidates after the first, which are not read) makes
  \<^verbatim>\<open>query\<close> print the same and leave the same session.
\<close>

theorem query_sources_sorted:
  assumes store: "file_search_store s = Some st" and files: "uploaded_files s \<noteq> []"
    and resp: "generate_content E
                 (trace s @ [Print (NL @ ''Query: '' @ question), Print (replicate 50 CHR ''-'')])
                 (model_name s) question [store_name st] =
               Inr (Response txt (Some (Candidate (Some (Grounding (Some chunks))) # cs)))"
    and titled: "\<forall>ch\<in>set chunks. \<forall>ctx. retrieved_context ch = Some ctx \<longrightarrow> title ctx \<noteq> None"
  shows "\<exists>ts. sorted ts \<and> distinct ts \<and>
      set ts = {t. \<exists>ch\<in>set chunks. retrieved_context ch = Some (Retrieved (Some t))} \<and>
      query E s question =
        (Inr (Response txt (Some (Candidate (Some (Grounding (Some chunks))) # cs))),
         s\<lparr>trace := trace s @
           [Print (NL @ ''Query: '' @ question), Print (replicate 50 CHR ''-''),
            GenerateContent (model_name s) question [store_name st],
            Print (NL @ ''Answer:'' @ NL @ str_opt txt @ NL)] @
           (if chunks = [] then [Print ''No grounding sources found'']
            else if ts = [] then []
            else Print (NL @ ''Sources:'') #
                 map (\<lambda>(i, t). Print (str_nat i @ ''. '' @ t)) (List.enumerate 1 ts))\<rparr>) \<and>
      (\<forall>E' chunks' cs'.
          mset chunks' = mset chunks \<and>
          generate_content E'
            (trace s @ [Print (NL @ ''Query: '' @ question), Print (replicate 50 CHR ''-'')])
            (model_name s) question [store_name st] =
          Inr (Response txt (Some (Candidate (Some (Grounding (Some chunks'))) # cs')))
          \<longrightarrow> snd (query E' s question) = snd (query E s question))"
proof -
  let ?T = "{t. \<exists>ch\<in>set chunks. retrieved_context ch = Some (Retrieved (Some t))}"
  let ?ts = "sorted_list_of_set ?T"
  have fin: "finite ?T" by (rule finite_titles)
  have a: "sorted ?ts" "distinct ?ts" "set ?ts = ?T" using fin by simp_all
  have e: "?ts = [] \<longleftrightarrow> ?T = {}" using fin by simp
  have b: "query E s question =
        (Inr (Response txt (Some (Candidate (Some (Grounding (Some chunks))) # cs))),
         s\<lparr>trace := trace s @
           [Print (NL @ ''Query: '' @ question), Print (replicate 50 CHR ''-''),
            GenerateContent (model_name s) question [store_name st],
            Print (NL @ ''Answer:'' @ NL @ str_opt txt @ NL)] @
           (if chunks = [] then [Print ''No grounding sources found'']
            else if ?ts = [] then []
            else Print (NL @ ''Sources:'') #
                 map (\<lambda>(i, t). Print (str_nat i @ ''. '' @ t)) (List.enumerate 1 ?ts))\<rparr>)"
    unfolding e by (rule query_titled [OF store files resp titled])
  have c: "snd (query E' s question) = snd (query E s question)"
    if "mset chunks' = mset chunks"
      and resp': "generate_content E'
            (trace s @ [Print (NL @ ''Query: '' @ question), Print (replicate 50 CHR ''-'')])
            (model_name s) question [store_name st] =
          Inr (Response txt (Some (Candidate (Some (Grounding (Some chunks'))) # cs')))"
    for E' chunks' cs'
  proof -
    from that(1) have set: "set chunks' = set chunks" by (rule mset_eq_setD)
    from that(1) have nil: "chunks' = [] \<longleftrightarrow> chunks = []"
      by (metis mset_zero_iff)
    from titled set
    have titled': "\<forall>ch\<in>set chunks'. \<forall>ctx. retrieved_context ch = Some ctx \<longrightarrow> title ctx \<noteq> None"
      by simp
    show ?thesis
      unfolding query_titled [OF store files resp titled]
                query_titled [OF store files resp' titled'] set nil
      by simp
  qed
  from a b c show ?thesis by blast
qed

theorem query_sources_sorted_witness:
  "file_search_store ready = Some (Store ''fileSearchStores/kb'') \<and>
   uploaded_files ready \<noteq> [] \<and>
   query demo_env ready ''why?'' =
     (Inr demo_response,
      ready\<lparr>trace :=
        [Print (NL @ ''Query: why?''),
         Print ''--------------------------------------------------'',
         GenerateContent ''gemini-2.5-pro'' ''why?'' [''fileSearchStores/kb''],
         Print (NL @ ''Answer:'' @ NL @ ''42'' @ NL),
         Print (NL @ ''Sources:''),
         Print ''1. a.txt'',
         Print ''2. b.md'']\<rparr>)"
proof -
  let ?chunks = "[Chunk (Some (Retrieved (Some ''b.md''))),
                  Chunk (Some (Retrieved (Some ''a.txt''))),
                  Chunk None,
                  Chunk (Some (Retrieved (Some ''b.md'')))]"
  have store: "file_search_store ready = Some (Store ''fileSearchStores/kb'')"
    by (simp add: ready_def with_store_def fresh_def)
  have files: "uploaded_files ready \<noteq> []"
    by (simp add: ready_def with_store_def fresh_def)
  have resp: "generate_content demo_env
                 (trace ready @ [Print (NL @ ''Query: '' @ ''why?''), Print (replicate 50 CHR ''-'')])
                 (model_name ready) ''why?'' [store_name (Store ''fileSearchStores/kb'')] =
               Inr (Response (Some ''42'') (Some (Candidate (Some (Grounding (Some ?chunks))) # [])))"
    by (simp add: demo_env_def demo_response_def)
  have titled: "\<forall>ch\<in>set ?chunks. \<forall>ctx. retrieved_context ch = Some ctx \<longrightarrow> title ctx \<noteq> None"
    by auto
  from query_sources_sorted [OF store files resp titled] obtain ts where
    ts: "sorted ts" "distinct ts"
      "set ts = {t. \<exists>ch\<in>set ?chunks. retrieved_context ch = Some (Retrieved (Some t))}"
    and q: "query demo_env ready ''why?'' =
        (Inr (Response (Some ''42'') (Some (Candidate (Some (Grounding (Some ?chunks))) # []))),
         ready\<lparr>trace := trace ready @
           [Print (NL @ ''Query: '' @ ''why?''), Print (replicate 50 CHR ''-''),
            GenerateContent (model_name ready) ''why?'' [store_name (Store ''fileSearchStores/kb'')],
            Print (NL @ ''Answer:'' @ NL @ str_opt (Some ''42'') @ NL)] @
           (if ?chunks = [] then [Print ''No grounding sources found'']
            else if ts = [] then []
            else Print (NL @ ''Sources:'') #
                 map (\<lambda>(i, t). Print (str_nat i @ ''. '' @ t)) (List.enumerate 1 ts))\<rparr>)"
    by blast
  from ts(3) have "set ts = set [''a.txt'', ''b.md'']" by auto
  moreover have "sorted [''a.txt'', ''b.md'']" "distinct [''a.txt'', ''b.md'']" by simp_all
  ultimately have "ts = [''a.txt'', ''b.md'']"
    using ts(1,2) by (intro sorted_distinct_set_unique)
  with q have "query demo_env ready ''why?'' =
     (Inr demo_response,
      ready\<lparr>trace :=
        [Print (NL @ ''Query: why?''),
         Print ''--------------------------------------------------'',
         GenerateContent ''gemini-2.5-pro'' ''why?'' [''fileSearchStores/kb''],
         Print (NL @ ''Answer:'' @ NL @ ''42'' @ NL),
         Print (NL @ ''Sources:''),
         Print ''1. a.txt'',
         Print ''2. b.md'']\<rparr>)"
    by (simp add: demo_response_def ready_def with_store_def fresh_def enumerate_eq_zip
          str_nat_1_2 eval_nat_numeral del: str_nat.simps)
  with store files show ?thesis by simp
qed

end
